theory Spec2Isabelle
  imports Main
begin

section \<open>Values of lambda.py\<close>

text \<open>
  The values of the model are the host integers, the host strings and the callables (other
  host values, floats among them, are left out). The callables
  are the closures of the \<^verbatim>\<open>lambda\<close> and \<^verbatim>\<open>def\<close> expressions of lambda.py, one label per
  expression, together with the values the closure has captured, and the functions of the
  caller (\<open>Host\<close>), whose behaviour is a parameter of the evaluation. The labels are grouped
  by the number of captured variables.

  A closure that is the \<open>k\<close>-th nested lambda of a definition \<open>X\<close> is named \<open>X_k\<close>; the anonymous
  handlers passed by \<open>LEFT\<close>, \<open>RIGHT\<close>, \<open>NILP\<close>, \<open>HEAD\<close> and \<open>TAIL\<close> are named after the parameter
  they are passed for. \<open>fact_gen\<close> is the generator on the last line of the file:
  \<^verbatim>\<open>lambda f: lambda n: 1 if n <= 0 else n*f(n-1)\<close>.
\<close>

datatype err = TypeError | Exception string

datatype lam0 =
    L_ID | L_VOID_raising | L_TRUE | L_FALSE | L_IF | L_compose | L_ONE | L_TWO | L_THREE
  | L_numeral | L_INC | L_natify | L_SUCC | L_SUM | L_MULT | L_PAIR | L_LEFT | L_LEFT_sel
  | L_RIGHT | L_RIGHT_sel | L_NIL | L_CONS | L_NILP | L_NILP_onnil | L_NILP_onlist
  | L_HEAD | L_HEAD_onlist | L_TAIL | L_TAIL_onlist | L_U | L_Y_h | L_fact_gen

datatype lam1 =
    L_TRUE_1 | L_FALSE_1 | L_IF_1 | L_numeral_1 | L_SUCC_1 | L_SUM_1 | L_MULT_1 | L_PAIR_1
  | L_LEFT_sel_1 | L_RIGHT_sel_1 | L_NIL_1 | L_CONS_1 | L_NILP_onlist_1 | L_HEAD_onlist_1
  | L_TAIL_onlist_1 | L_Y_F | L_fact_body

datatype lam2 =
    L_IF_2 | L_compose_1 | L_numeral_2 | L_SUCC_2 | L_SUM_2 | L_PAIR_2 | L_CONS_2 | L_Y_x

datatype lam3 = L_CONS_3

datatype 'h val =
    IntV int
  | StrV string
  | Fn0 lam0
  | Fn1 lam1 "'h val"
  | Fn2 lam2 "'h val" "'h val"
  | Fn3 lam3 "'h val" "'h val" "'h val"
  | Host 'h

type_synonym 'h res = "err + 'h val"

text \<open>
  A computation either returns, raises, or calls a value on a list of arguments and goes on
  with the outcome of that call.
\<close>

datatype 'h comp =
    Ret "'h val"
  | Raise err
  | Invoke "'h val" "'h val list" "'h res \<Rightarrow> 'h comp"

type_synonym 'h host = "'h \<Rightarrow> 'h val list \<Rightarrow> 'h comp"

abbreviation ID :: "'h val" where "ID \<equiv> Fn0 L_ID"
abbreviation VOID :: "'h val" where "VOID \<equiv> ID"
abbreviation VOID_raising :: "'h val" where "VOID_raising \<equiv> Fn0 L_VOID_raising"
abbreviation TRUE :: "'h val" where "TRUE \<equiv> Fn0 L_TRUE"
abbreviation TRUE_1 :: "'h val \<Rightarrow> 'h val" where "TRUE_1 \<equiv> Fn1 L_TRUE_1"
abbreviation FALSE :: "'h val" where "FALSE \<equiv> Fn0 L_FALSE"
abbreviation FALSE_1 :: "'h val \<Rightarrow> 'h val" where "FALSE_1 \<equiv> Fn1 L_FALSE_1"
abbreviation IF :: "'h val" where "IF \<equiv> Fn0 L_IF"
abbreviation IF_1 :: "'h val \<Rightarrow> 'h val" where "IF_1 \<equiv> Fn1 L_IF_1"
abbreviation IF_2 :: "'h val \<Rightarrow> 'h val \<Rightarrow> 'h val" where "IF_2 \<equiv> Fn2 L_IF_2"
abbreviation compose :: "'h val" where "compose \<equiv> Fn0 L_compose"
abbreviation compose_1 :: "'h val \<Rightarrow> 'h val \<Rightarrow> 'h val" where "compose_1 \<equiv> Fn2 L_compose_1"
abbreviation ONE :: "'h val" where "ONE \<equiv> Fn0 L_ONE"
abbreviation TWO :: "'h val" where "TWO \<equiv> Fn0 L_TWO"
abbreviation THREE :: "'h val" where "THREE \<equiv> Fn0 L_THREE"
abbreviation numeral' :: "'h val" where "numeral' \<equiv> Fn0 L_numeral"
abbreviation numeral_1 :: "'h val \<Rightarrow> 'h val" where "numeral_1 \<equiv> Fn1 L_numeral_1"
abbreviation numeral_2 :: "'h val \<Rightarrow> 'h val \<Rightarrow> 'h val" where "numeral_2 \<equiv> Fn2 L_numeral_2"
abbreviation INC :: "'h val" where "INC \<equiv> Fn0 L_INC"
abbreviation natify :: "'h val" where "natify \<equiv> Fn0 L_natify"
abbreviation SUCC :: "'h val" where "SUCC \<equiv> Fn0 L_SUCC"
abbreviation SUCC_1 :: "'h val \<Rightarrow> 'h val" where "SUCC_1 \<equiv> Fn1 L_SUCC_1"
abbreviation SUCC_2 :: "'h val \<Rightarrow> 'h val \<Rightarrow> 'h val" where "SUCC_2 \<equiv> Fn2 L_SUCC_2"
abbreviation SUM' :: "'h val" where "SUM' \<equiv> Fn0 L_SUM"
abbreviation SUM_1 :: "'h val \<Rightarrow> 'h val" where "SUM_1 \<equiv> Fn1 L_SUM_1"
abbreviation SUM_2 :: "'h val \<Rightarrow> 'h val \<Rightarrow> 'h val" where "SUM_2 \<equiv> Fn2 L_SUM_2"
abbreviation MULT :: "'h val" where "MULT \<equiv> Fn0 L_MULT"
abbreviation MULT_1 :: "'h val \<Rightarrow> 'h val" where "MULT_1 \<equiv> Fn1 L_MULT_1"
abbreviation PAIR :: "'h val" where "PAIR \<equiv> Fn0 L_PAIR"
abbreviation PAIR_1 :: "'h val \<Rightarrow> 'h val" where "PAIR_1 \<equiv> Fn1 L_PAIR_1"
abbreviation PAIR_2 :: "'h val \<Rightarrow> 'h val \<Rightarrow> 'h val" where "PAIR_2 \<equiv> Fn2 L_PAIR_2"
abbreviation LEFT :: "'h val" where "LEFT \<equiv> Fn0 L_LEFT"
abbreviation LEFT_sel :: "'h val" where "LEFT_sel \<equiv> Fn0 L_LEFT_sel"
abbreviation LEFT_sel_1 :: "'h val \<Rightarrow> 'h val" where "LEFT_sel_1 \<equiv> Fn1 L_LEFT_sel_1"
abbreviation RIGHT :: "'h val" where "RIGHT \<equiv> Fn0 L_RIGHT"
abbreviation RIGHT_sel :: "'h val" where "RIGHT_sel \<equiv> Fn0 L_RIGHT_sel"
abbreviation RIGHT_sel_1 :: "'h val \<Rightarrow> 'h val" where "RIGHT_sel_1 \<equiv> Fn1 L_RIGHT_sel_1"
abbreviation NIL :: "'h val" where "NIL \<equiv> Fn0 L_NIL"
abbreviation NIL_1 :: "'h val \<Rightarrow> 'h val" where "NIL_1 \<equiv> Fn1 L_NIL_1"
abbreviation CONS :: "'h val" where "CONS \<equiv> Fn0 L_CONS"
abbreviation CONS_1 :: "'h val \<Rightarrow> 'h val" where "CONS_1 \<equiv> Fn1 L_CONS_1"
abbreviation CONS_2 :: "'h val \<Rightarrow> 'h val \<Rightarrow> 'h val" where "CONS_2 \<equiv> Fn2 L_CONS_2"
abbreviation CONS_3 :: "'h val \<Rightarrow> 'h val \<Rightarrow> 'h val \<Rightarrow> 'h val" where "CONS_3 \<equiv> Fn3 L_CONS_3"
abbreviation NILP :: "'h val" where "NILP \<equiv> Fn0 L_NILP"
abbreviation NILP_onnil :: "'h val" where "NILP_onnil \<equiv> Fn0 L_NILP_onnil"
abbreviation NILP_onlist :: "'h val" where "NILP_onlist \<equiv> Fn0 L_NILP_onlist"
abbreviation NILP_onlist_1 :: "'h val \<Rightarrow> 'h val" where "NILP_onlist_1 \<equiv> Fn1 L_NILP_onlist_1"
abbreviation HEAD :: "'h val" where "HEAD \<equiv> Fn0 L_HEAD"
abbreviation HEAD_onlist :: "'h val" where "HEAD_onlist \<equiv> Fn0 L_HEAD_onlist"
abbreviation HEAD_onlist_1 :: "'h val \<Rightarrow> 'h val" where "HEAD_onlist_1 \<equiv> Fn1 L_HEAD_onlist_1"
abbreviation TAIL :: "'h val" where "TAIL \<equiv> Fn0 L_TAIL"
abbreviation TAIL_onlist :: "'h val" where "TAIL_onlist \<equiv> Fn0 L_TAIL_onlist"
abbreviation TAIL_onlist_1 :: "'h val \<Rightarrow> 'h val" where "TAIL_onlist_1 \<equiv> Fn1 L_TAIL_onlist_1"
abbreviation U :: "'h val" where "U \<equiv> Fn0 L_U"
abbreviation Y_h :: "'h val" where "Y_h \<equiv> Fn0 L_Y_h"
abbreviation Y_F :: "'h val \<Rightarrow> 'h val" where "Y_F \<equiv> Fn1 L_Y_F"
abbreviation Y_x :: "'h val \<Rightarrow> 'h val \<Rightarrow> 'h val" where "Y_x \<equiv> Fn2 L_Y_x"
abbreviation fact_body :: "'h val \<Rightarrow> 'h val" where "fact_body \<equiv> Fn1 L_fact_body"

text \<open>
  The module-level bindings that are the result of a call made when the file is loaded:
  \<^verbatim>\<open>FOUR = numeral(4)\<close>, \<^verbatim>\<open>EIGHT = numeral(8)\<close> and
  \<^verbatim>\<open>Y = (lambda h: lambda F: ...)(lambda h: lambda F: ...)\<close>. Each is defined as the value
  that call returns (lemma \<open>module_bindings\<close> below).
\<close>

definition FOUR :: "'h val" where "FOUR = numeral_1 (IntV 4)"
definition EIGHT :: "'h val" where "EIGHT = numeral_1 (IntV 8)"
definition Y :: "'h val" where "Y = Y_F Y_h"

section \<open>The host operators the file uses\<close>

text \<open>
  \<^verbatim>\<open>n == 0\<close>, \<^verbatim>\<open>n - 1\<close>, \<^verbatim>\<open>x + 1\<close>, \<^verbatim>\<open>n <= 0\<close> and \<^verbatim>\<open>n * r\<close>, on the values of the model, with
  Python 3's rules: comparing a non-number with \<open>0\<close> for equality is false; subtraction, addition
  and ordering against an integer raise \<open>TypeError\<close> on a string or a function; an integer
  times a string repeats the string.
\<close>

fun py_eq_int :: "'h val \<Rightarrow> int \<Rightarrow> bool" where
  "py_eq_int (IntV i) k = (i = k)"
| "py_eq_int _ k = False"

fun py_sub_int :: "'h val \<Rightarrow> int \<Rightarrow> 'h res" where
  "py_sub_int (IntV i) k = Inr (IntV (i - k))"
| "py_sub_int _ k = Inl TypeError"

fun py_add_int :: "'h val \<Rightarrow> int \<Rightarrow> 'h res" where
  "py_add_int (IntV i) k = Inr (IntV (i + k))"
| "py_add_int _ k = Inl TypeError"

fun py_le_int :: "'h val \<Rightarrow> int \<Rightarrow> err + bool" where
  "py_le_int (IntV i) k = Inr (i \<le> k)"
| "py_le_int _ k = Inl TypeError"

fun py_mul :: "'h val \<Rightarrow> 'h val \<Rightarrow> 'h res" where
  "py_mul (IntV i) (IntV j) = Inr (IntV (i * j))"
| "py_mul (IntV i) (StrV s) = Inr (StrV (concat (replicate (nat i) s)))"
| "py_mul (StrV s) (IntV i) = Inr (StrV (concat (replicate (nat i) s)))"
| "py_mul _ _ = Inl TypeError"

section \<open>The bodies of the closures\<close>

text \<open>
  A call with the wrong number of arguments raises \<open>TypeError\<close>, as Python does; so does a
  call of an integer or a string.
\<close>

fun arg0 :: "'h val list \<Rightarrow> 'h comp \<Rightarrow> 'h comp" where
  "arg0 [] k = k"
| "arg0 _ k = Raise TypeError"

fun arg1 :: "'h val list \<Rightarrow> ('h val \<Rightarrow> 'h comp) \<Rightarrow> 'h comp" where
  "arg1 [a] k = k a"
| "arg1 _ k = Raise TypeError"

fun arg2 :: "'h val list \<Rightarrow> ('h val \<Rightarrow> 'h val \<Rightarrow> 'h comp) \<Rightarrow> 'h comp" where
  "arg2 [a, b] k = k a b"
| "arg2 _ k = Raise TypeError"

text \<open>\<open>call f args k\<close>: evaluate \<open>f(args)\<close>; an exception propagates, a value goes to \<open>k\<close>.\<close>

definition call :: "'h val \<Rightarrow> 'h val list \<Rightarrow> ('h val \<Rightarrow> 'h comp) \<Rightarrow> 'h comp" where
  "call f args k = Invoke f args (\<lambda>r. case r of Inl e \<Rightarrow> Raise e | Inr v \<Rightarrow> k v)"

fun lift :: "'h res \<Rightarrow> 'h comp" where
  "lift (Inl e) = Raise e"
| "lift (Inr v) = Ret v"

primrec body0 :: "lam0 \<Rightarrow> 'h val list \<Rightarrow> 'h comp" where
  "body0 L_ID args = arg1 args (\<lambda>z. Ret z)"
| "body0 L_VOID_raising args = arg1 args (\<lambda>_. Raise (Exception ''Cannot invoke VOID!''))"
| "body0 L_TRUE args = arg1 args (\<lambda>true_value. Ret (TRUE_1 true_value))"
| "body0 L_FALSE args = arg1 args (\<lambda>true_value. Ret (FALSE_1 true_value))"
| "body0 L_IF args = arg1 args (\<lambda>cond. Ret (IF_1 cond))"
| "body0 L_compose args = arg2 args (\<lambda>f g. Ret (compose_1 f g))"
| "body0 L_ONE args = arg1 args (\<lambda>f. Ret f)"
| "body0 L_TWO args = arg1 args (\<lambda>f. call compose [f, f] Ret)"
| "body0 L_THREE args = arg1 args (\<lambda>f. call TWO [f] (\<lambda>t. call compose [f, t] Ret))"
| "body0 L_numeral args = arg1 args (\<lambda>n. Ret (numeral_1 n))"
| "body0 L_INC args = arg1 args (\<lambda>x. lift (py_add_int x 1))"
| "body0 L_natify args = arg1 args (\<lambda>f. call f [INC] (\<lambda>g. call g [IntV 0] Ret))"
| "body0 L_SUCC args = arg1 args (\<lambda>n. Ret (SUCC_1 n))"
| "body0 L_SUM args = arg1 args (\<lambda>n. Ret (SUM_1 n))"
| "body0 L_MULT args = arg1 args (\<lambda>n. Ret (MULT_1 n))"
| "body0 L_PAIR args = arg1 args (\<lambda>a. Ret (PAIR_1 a))"
| "body0 L_LEFT args = arg1 args (\<lambda>pair. call pair [LEFT_sel] Ret)"
| "body0 L_LEFT_sel args = arg1 args (\<lambda>a. Ret (LEFT_sel_1 a))"
| "body0 L_RIGHT args = arg1 args (\<lambda>pair. call pair [RIGHT_sel] Ret)"
| "body0 L_RIGHT_sel args = arg1 args (\<lambda>a. Ret (RIGHT_sel_1 a))"
| "body0 L_NIL args = arg1 args (\<lambda>onnil. Ret (NIL_1 onnil))"
| "body0 L_CONS args = arg1 args (\<lambda>hd'. Ret (CONS_1 hd'))"
| "body0 L_NILP args =
     arg1 args (\<lambda>lst. call lst [NILP_onnil] (\<lambda>g. call g [NILP_onlist] Ret))"
| "body0 L_NILP_onnil args = arg0 args (Ret TRUE)"
| "body0 L_NILP_onlist args = arg1 args (\<lambda>hd'. Ret (NILP_onlist_1 hd'))"
| "body0 L_HEAD args = arg1 args (\<lambda>lst. call lst [VOID] (\<lambda>g. call g [HEAD_onlist] Ret))"
| "body0 L_HEAD_onlist args = arg1 args (\<lambda>hd'. Ret (HEAD_onlist_1 hd'))"
| "body0 L_TAIL args = arg1 args (\<lambda>lst. call lst [VOID] (\<lambda>g. call g [TAIL_onlist] Ret))"
| "body0 L_TAIL_onlist args = arg1 args (\<lambda>hd'. Ret (TAIL_onlist_1 hd'))"
| "body0 L_U args = arg1 args (\<lambda>f. call f [f] Ret)"
| "body0 L_Y_h args = arg1 args (\<lambda>h. Ret (Y_F h))"
| "body0 L_fact_gen args = arg1 args (\<lambda>f. Ret (fact_body f))"

primrec body1 :: "lam1 \<Rightarrow> 'h val \<Rightarrow> 'h val list \<Rightarrow> 'h comp" where
  "body1 L_TRUE_1 true_value args = arg1 args (\<lambda>false_val. call true_value [] Ret)"
| "body1 L_FALSE_1 true_value args = arg1 args (\<lambda>false_value. call false_value [] Ret)"
| "body1 L_IF_1 cond args = arg1 args (\<lambda>true_value. Ret (IF_2 cond true_value))"
| "body1 L_numeral_1 n args = arg1 args (\<lambda>f. Ret (numeral_2 n f))"
| "body1 L_SUCC_1 n args = arg1 args (\<lambda>f. Ret (SUCC_2 n f))"
| "body1 L_SUM_1 n args = arg1 args (\<lambda>m. Ret (SUM_2 n m))"
| "body1 L_MULT_1 n args = arg1 args (\<lambda>m. call compose [n, m] Ret)"
| "body1 L_PAIR_1 a args = arg1 args (\<lambda>b. Ret (PAIR_2 a b))"
| "body1 L_LEFT_sel_1 a args = arg1 args (\<lambda>b. Ret a)"
| "body1 L_RIGHT_sel_1 a args = arg1 args (\<lambda>b. Ret b)"
| "body1 L_NIL_1 onnil args = arg1 args (\<lambda>onlist. call onnil [] Ret)"
| "body1 L_CONS_1 hd' args = arg1 args (\<lambda>tl'. Ret (CONS_2 hd' tl'))"
| "body1 L_NILP_onlist_1 hd' args = arg1 args (\<lambda>tl'. Ret FALSE)"
| "body1 L_HEAD_onlist_1 hd' args = arg1 args (\<lambda>tl'. Ret hd')"
| "body1 L_TAIL_onlist_1 hd' args = arg1 args (\<lambda>tl'. Ret tl')"
| "body1 L_Y_F h args = arg1 args (\<lambda>F. call F [Y_x h F] Ret)"
| "body1 L_fact_body f args =
     arg1 args (\<lambda>n.
       case py_le_int n 0 of
         Inl e \<Rightarrow> Raise e
       | Inr b \<Rightarrow>
           if b then Ret (IntV 1)
           else (case py_sub_int n 1 of
                   Inl e \<Rightarrow> Raise e
                 | Inr n1 \<Rightarrow> call f [n1] (\<lambda>r. lift (py_mul n r))))"

primrec body2 :: "lam2 \<Rightarrow> 'h val \<Rightarrow> 'h val \<Rightarrow> 'h val list \<Rightarrow> 'h comp" where
  "body2 L_IF_2 cond true_value args =
     arg1 args (\<lambda>false_value. call cond [true_value] (\<lambda>g. call g [false_value] Ret))"
| "body2 L_compose_1 f g args = arg1 args (\<lambda>x. call g [x] (\<lambda>y. call f [y] Ret))"
| "body2 L_numeral_2 n f args =
     arg1 args (\<lambda>z.
       if py_eq_int n 0 then Ret z
       else (case py_sub_int n 1 of
               Inl e \<Rightarrow> Raise e
             | Inr n1 \<Rightarrow>
                 call numeral' [n1] (\<lambda>a. call a [f] (\<lambda>b. call b [z] (\<lambda>r. call f [r] Ret)))))"
| "body2 L_SUCC_2 n f args =
     arg1 args (\<lambda>z. call n [f] (\<lambda>g. call g [z] (\<lambda>r. call f [r] Ret)))"
| "body2 L_SUM_2 n m args =
     arg1 args (\<lambda>f. call n [f] (\<lambda>nf. call m [f] (\<lambda>mf. call compose [nf, mf] Ret)))"
| "body2 L_PAIR_2 a b args = arg1 args (\<lambda>f. call f [a] (\<lambda>g. call g [b] Ret))"
| "body2 L_CONS_2 hd' tl' args = arg1 args (\<lambda>onnil. Ret (CONS_3 hd' tl' onnil))"
| "body2 L_Y_x h F args =
     arg1 args (\<lambda>x. call h [h] (\<lambda>a. call a [F] (\<lambda>b. call b [x] Ret)))"

primrec body3 :: "lam3 \<Rightarrow> 'h val \<Rightarrow> 'h val \<Rightarrow> 'h val \<Rightarrow> 'h val list \<Rightarrow> 'h comp" where
  "body3 L_CONS_3 hd' tl' onnil args =
     arg1 args (\<lambda>onlist. call onlist [hd'] (\<lambda>g. call g [tl'] Ret))"

text \<open>\<open>body host f args\<close> is the computation that the call \<open>f(args)\<close> starts.\<close>

primrec body :: "'h host \<Rightarrow> 'h val \<Rightarrow> 'h val list \<Rightarrow> 'h comp" where
  "body host (IntV i) args = Raise TypeError"
| "body host (StrV s) args = Raise TypeError"
| "body host (Fn0 l) args = body0 l args"
| "body host (Fn1 l a) args = body1 l a args"
| "body host (Fn2 l a b) args = body2 l a b args"
| "body host (Fn3 l a b c) args = body3 l a b c args"
| "body host (Host h) args = host h args"

section \<open>Evaluation\<close>

text \<open>
  \<open>run host n c\<close> evaluates \<open>c\<close> with at most \<open>n\<close> calls pending at any moment; \<open>None\<close> says
  that \<open>n\<close> was not enough. A result comes with the list of the values that were called on
  the way, in the order of the calls. The call stack of the model is unbounded: a
  computation that Python would stop with \<open>RecursionError\<close> is one that needs more fuel,
  or one that has no result for any fuel.
\<close>

fun run :: "'h host \<Rightarrow> nat \<Rightarrow> 'h comp \<Rightarrow> ('h res \<times> 'h val list) option" where
  "run host n (Ret v) = Some (Inr v, [])"
| "run host n (Raise e) = Some (Inl e, [])"
| "run host 0 (Invoke f args k) = None"
| "run host (Suc n) (Invoke f args k) =
     (case run host n (body host f args) of
        None \<Rightarrow> None
      | Some (r, cs) \<Rightarrow>
          (case run host n (k r) of
             None \<Rightarrow> None
           | Some (r', cs') \<Rightarrow> Some (r', f # cs @ cs')))"

text \<open>
  \<open>trace host c r cs\<close>: \<open>c\<close> ends with the outcome \<open>r\<close> after calling exactly the values
  \<open>cs\<close>; \<open>yields\<close> forgets the calls; \<open>diverges\<close>: no fuel is enough.
\<close>

definition trace :: "'h host \<Rightarrow> 'h comp \<Rightarrow> 'h res \<Rightarrow> 'h val list \<Rightarrow> bool" where
  "trace host c r cs = (\<exists>n. run host n c = Some (r, cs))"

definition yields :: "'h host \<Rightarrow> 'h comp \<Rightarrow> 'h res \<Rightarrow> bool" where
  "yields host c r = (\<exists>cs. trace host c r cs)"

definition diverges :: "'h host \<Rightarrow> 'h comp \<Rightarrow> bool" where
  "diverges host c = (\<forall>n. run host n c = None)"

text \<open>Two computations behave alike: the same outcome, or no outcome for either.\<close>

definition behaves_as :: "'h host \<Rightarrow> 'h comp \<Rightarrow> 'h comp \<Rightarrow> bool" where
  "behaves_as host c d = (\<forall>r. yields host c r = yields host d r)"


section \<open>The words of the specification\<close>

text \<open>
  \<open>applyNTimes n f z\<close> is the specification's \<open>f(f(...f(z)...))\<close> with \<open>n\<close> applications, the
  innermost first; \<open>bind\<close> sequences two computations.
\<close>

primrec bind :: "'h comp \<Rightarrow> ('h val \<Rightarrow> 'h comp) \<Rightarrow> 'h comp" where
  "bind (Ret v) g = g v"
| "bind (Raise e) g = Raise e"
| "bind (Invoke f args k) g = Invoke f args (\<lambda>r. bind (k r) g)"

primrec applyNTimes :: "nat \<Rightarrow> 'h val \<Rightarrow> 'h val \<Rightarrow> 'h comp" where
  "applyNTimes 0 f z = Ret z"
| "applyNTimes (Suc n) f z = bind (applyNTimes n f z) (\<lambda>v. call f [v] Ret)"

section \<open>Functions of a caller\<close>

text \<open>
  The thunks of the specification's test of \<open>IF\<close>: two constant producers and one that
  raises when it is called.
\<close>

datatype client = Const_a | Const_b | Boom

primrec client_host :: "client host" where
  "client_host Const_a args = arg0 args (Ret (StrV ''a''))"
| "client_host Const_b args = arg0 args (Ret (StrV ''b''))"
| "client_host Boom args = Raise (Exception ''called'')"

section \<open>Values that differ only in the self-reference\<close>

text \<open>
  For a generator \<open>F\<close> that has returned \<open>f\<close>, the self-reference \<^verbatim>\<open>lambda x: h(h)(F)(x)\<close>,
  the value \<open>Y_x Y_h F\<close>, stands for \<open>f\<close>. \<open>rel F f v w\<close>: \<open>w\<close> is \<open>v\<close> with some occurrences of the
  self-reference exchanged for \<open>f\<close>, or of \<open>f\<close> for the self-reference; integers and strings are
  related to themselves only. \<open>rres\<close> is the same on outcomes (an exception is related to
  itself), \<open>crel\<close> on computations. \<open>view\<close> is what the host operators see of a value.
\<close>

datatype prim = PInt int | PStr string | PFun

fun view :: "'h val \<Rightarrow> prim" where
  "view (IntV i) = PInt i"
| "view (StrV t) = PStr t"
| "view _ = PFun"

inductive rel :: "'h val \<Rightarrow> 'h val \<Rightarrow> 'h val \<Rightarrow> 'h val \<Rightarrow> bool" for F f where
  rel_sf: "rel F f (Y_x Y_h F) f"
| rel_fs: "rel F f f (Y_x Y_h F)"
| rel_IntV: "rel F f (IntV i) (IntV i)"
| rel_StrV: "rel F f (StrV t) (StrV t)"
| rel_Fn0: "rel F f (Fn0 l) (Fn0 l)"
| rel_Fn1: "rel F f a a' \<Longrightarrow> rel F f (Fn1 l a) (Fn1 l a')"
| rel_Fn2: "rel F f a a' \<Longrightarrow> rel F f b b' \<Longrightarrow> rel F f (Fn2 l a b) (Fn2 l a' b')"
| rel_Fn3: "rel F f a a' \<Longrightarrow> rel F f b b' \<Longrightarrow> rel F f c c' \<Longrightarrow>
     rel F f (Fn3 l a b c) (Fn3 l a' b' c')"
| rel_Host: "rel F f (Host h) (Host h)"

definition rres :: "'h val \<Rightarrow> 'h val \<Rightarrow> 'h res \<Rightarrow> 'h res \<Rightarrow> bool" where
  "rres F f r r' = (case r of
      Inl e \<Rightarrow> r' = Inl e
    | Inr v \<Rightarrow> (case r' of Inl e' \<Rightarrow> False | Inr v' \<Rightarrow> rel F f v v'))"

inductive crel :: "'h val \<Rightarrow> 'h val \<Rightarrow> 'h comp \<Rightarrow> 'h comp \<Rightarrow> bool" for F f where
  crel_Ret: "rel F f v v' \<Longrightarrow> crel F f (Ret v) (Ret v')"
| crel_Raise: "crel F f (Raise e) (Raise e)"
| crel_Invoke: "rel F f g g' \<Longrightarrow> list_all2 (rel F f) args args' \<Longrightarrow>
     (\<And>r r'. rres F f r r' \<Longrightarrow> crel F f (k r) (k' r')) \<Longrightarrow>
     crel F f (Invoke g args k) (Invoke g' args' k')"

text \<open>
  \<open>unary_fn host f\<close>: \<open>f\<close> is a function of one argument, that is, not an integer or a string,
  and a call of it with another number of arguments raises \<open>TypeError\<close>. Every closure of
  lambda.py that has captured a value is one (lemmas \<open>unary_fn_Fn1\<close> to \<open>unary_fn_Fn3\<close>).
\<close>

definition unary_fn :: "'h host \<Rightarrow> 'h val \<Rightarrow> bool" where
  "unary_fn host f = (view f = PFun \<and> (\<forall>args. length args \<noteq> 1 \<longrightarrow> body host f args = Raise TypeError))"

text \<open>
  \<open>host_uniform host F f\<close>: the functions of the caller use their arguments as values of the
  program (they pass them on, call them, return them) and do not look inside a closure to
  tell the self-reference from \<open>f\<close>. It holds, for every \<open>F\<close> and \<open>f\<close>, of the caller of the
  specification's test (lemma \<open>client_host_uniform\<close>).
\<close>

definition host_uniform :: "'h host \<Rightarrow> 'h val \<Rightarrow> 'h val \<Rightarrow> bool" where
  "host_uniform host F f =
     (\<forall>h args args'. list_all2 (rel F f) args args' \<longrightarrow> crel F f (host h args) (host h args'))"

text \<open>
  \<open>alike host F f c d\<close>: \<open>c\<close> and \<open>d\<close> behave alike, up to the self-reference: every outcome of
  one is an outcome of the other, the same exception, or the same value up to \<open>rel\<close>.
\<close>

definition alike :: "'h host \<Rightarrow> 'h val \<Rightarrow> 'h val \<Rightarrow> 'h comp \<Rightarrow> 'h comp \<Rightarrow> bool" where
  "alike host F f c d =
     ((\<forall>r. yields host c r \<longrightarrow> (\<exists>r'. yields host d r' \<and> rres F f r r')) \<and>
      (\<forall>r'. yields host d r' \<longrightarrow> (\<exists>r. yields host c r \<and> rres F f r r')))"

section \<open>Basic facts of the evaluation\<close>

lemma run_mono: "run host n c = Some rc \<Longrightarrow> n \<le> m \<Longrightarrow> run host m c = Some rc"
proof (induction n arbitrary: c m rc)
  case 0
  then show ?case by (cases c) simp_all
next
  case (Suc n)
  show ?case
  proof (cases c)
    case (Invoke f args k)
    from Suc.prems(2) obtain m' where m: "m = Suc m'" and le: "n \<le> m'"
      by (cases m) simp_all
    from Suc.prems(1) Invoke obtain r1 cs1 r2 cs2 where
      b: "run host n (body host f args) = Some (r1, cs1)" and
      k: "run host n (k r1) = Some (r2, cs2)" and
      rc: "rc = (r2, f # cs1 @ cs2)"
      by (auto split: option.splits prod.splits)
    from Suc.IH [OF b le] Suc.IH [OF k le] show ?thesis
      using Invoke m rc by simp
  qed (use Suc.prems in simp_all)
qed

lemma trace_det:
  assumes "trace host c r cs" and "trace host c r' cs'"
  shows "r = r' \<and> cs = cs'"
proof -
  from assms obtain n m where n: "run host n c = Some (r, cs)"
    and m: "run host m c = Some (r', cs')"
    by (auto simp: trace_def)
  from run_mono [OF n, of "max n m"] run_mono [OF m, of "max n m"] show ?thesis
    by simp
qed

lemma yields_det: "yields host c r \<Longrightarrow> yields host c r' \<Longrightarrow> r = r'"
  unfolding yields_def using trace_det by blast

lemma trace_Ret [simp]: "trace host (Ret v) r cs \<longleftrightarrow> r = Inr v \<and> cs = []"
  by (auto simp: trace_def)

lemma trace_Raise [simp]: "trace host (Raise e) r cs \<longleftrightarrow> r = Inl e \<and> cs = []"
  by (auto simp: trace_def)

lemma trace_Invoke:
  "trace host (Invoke f args k) r cs \<longleftrightarrow>
     (\<exists>r1 cs1 cs2. trace host (body host f args) r1 cs1 \<and> trace host (k r1) r cs2 \<and>
        cs = f # cs1 @ cs2)"
proof
  assume "trace host (Invoke f args k) r cs"
  then obtain n where n: "run host n (Invoke f args k) = Some (r, cs)"
    by (auto simp: trace_def)
  then obtain n' where "n = Suc n'" by (cases n) simp_all
  with n show "\<exists>r1 cs1 cs2. trace host (body host f args) r1 cs1 \<and> trace host (k r1) r cs2 \<and>
        cs = f # cs1 @ cs2"
    by (auto simp: trace_def split: option.splits prod.splits)
next
  assume "\<exists>r1 cs1 cs2. trace host (body host f args) r1 cs1 \<and> trace host (k r1) r cs2 \<and>
        cs = f # cs1 @ cs2"
  then obtain r1 cs1 cs2 n m where
    b: "run host n (body host f args) = Some (r1, cs1)" and
    k: "run host m (k r1) = Some (r, cs2)" and cs: "cs = f # cs1 @ cs2"
    by (auto simp: trace_def)
  from run_mono [OF b, of "max n m"] run_mono [OF k, of "max n m"]
  have "run host (Suc (max n m)) (Invoke f args k) = Some (r, cs)" using cs by simp
  then show "trace host (Invoke f args k) r cs" unfolding trace_def by blast
qed

lemma trace_call:
  "trace host (call f args k) r cs \<longleftrightarrow>
     (\<exists>e cs1. trace host (body host f args) (Inl e) cs1 \<and> r = Inl e \<and> cs = f # cs1) \<or>
     (\<exists>v cs1 cs2. trace host (body host f args) (Inr v) cs1 \<and> trace host (k v) r cs2 \<and>
        cs = f # cs1 @ cs2)"
  (is "?L \<longleftrightarrow> ?E \<or> ?V")
proof
  assume ?L
  then obtain r1 cs1 cs2 where b: "trace host (body host f args) r1 cs1"
    and c: "trace host (case r1 of Inl e \<Rightarrow> Raise e | Inr v \<Rightarrow> k v) r cs2"
    and cs: "cs = f # cs1 @ cs2"
    unfolding call_def trace_Invoke by blast
  show "?E \<or> ?V"
  proof (cases r1)
    case (Inl e)
    with b c cs show ?thesis by auto
  next
    case (Inr v)
    with b c cs show ?thesis by auto
  qed
next
  assume "?E \<or> ?V"
  then show ?L
  proof
    assume ?E
    then obtain e cs1 where "trace host (body host f args) (Inl e) cs1" "r = Inl e" "cs = f # cs1"
      by blast
    then have "trace host (body host f args) (Inl e) cs1 \<and>
        trace host (case Inl e of Inl e \<Rightarrow> Raise e | Inr v \<Rightarrow> k v) r [] \<and> cs = f # cs1 @ []"
      by simp
    then show ?L unfolding call_def trace_Invoke by blast
  next
    assume ?V
    then obtain v cs1 cs2 where "trace host (body host f args) (Inr v) cs1"
      "trace host (k v) r cs2" "cs = f # cs1 @ cs2" by blast
    then have "trace host (body host f args) (Inr v) cs1 \<and>
        trace host (case Inr v of Inl e \<Rightarrow> Raise e | Inr v \<Rightarrow> k v) r cs2 \<and> cs = f # cs1 @ cs2"
      by simp
    then show ?L unfolding call_def trace_Invoke by blast
  qed
qed

lemma trace_call_Ret:
  "trace host (call f args Ret) r cs \<longleftrightarrow> (\<exists>cs1. trace host (body host f args) r cs1 \<and> cs = f # cs1)"
  by (cases r) (auto simp: trace_call)

lemma yields_Ret [simp]: "yields host (Ret v) r \<longleftrightarrow> r = Inr v"
  by (simp add: yields_def)

lemma yields_Raise [simp]: "yields host (Raise e) r \<longleftrightarrow> r = Inl e"
  by (simp add: yields_def)

lemma yields_Invoke:
  "yields host (Invoke f args k) r \<longleftrightarrow>
     (\<exists>r1. yields host (body host f args) r1 \<and> yields host (k r1) r)"
  unfolding yields_def trace_Invoke by blast

lemma yields_call:
  "yields host (call f args k) r \<longleftrightarrow>
     (\<exists>e. yields host (body host f args) (Inl e) \<and> r = Inl e) \<or>
     (\<exists>v. yields host (body host f args) (Inr v) \<and> yields host (k v) r)"
  unfolding yields_def trace_call by blast

lemma yields_call_Ret:
  "yields host (call f args Ret) r \<longleftrightarrow> yields host (body host f args) r"
  unfolding yields_def trace_call_Ret by blast

lemma run_call [simp]:
  "run host (Suc n) (call f args k) =
     (case run host n (body host f args) of
        None \<Rightarrow> None
      | Some (Inl e, cs) \<Rightarrow> Some (Inl e, f # cs)
      | Some (Inr v, cs) \<Rightarrow>
          (case run host n (k v) of
             None \<Rightarrow> None
           | Some (r', cs') \<Rightarrow> Some (r', f # cs @ cs')))"
  by (simp add: call_def split: option.splits sum.splits prod.splits)

lemma run_call_0 [simp]: "run host 0 (call f args k) = None"
  by (simp add: call_def)


lemma yields_bind:
  "yields host (bind m g) r \<longleftrightarrow>
     (\<exists>e. yields host m (Inl e) \<and> r = Inl e) \<or>
     (\<exists>v. yields host m (Inr v) \<and> yields host (g v) r)"
proof (induction m arbitrary: r)
  case (Ret v)
  show ?case by simp
next
  case (Raise e)
  show ?case by auto
next
  case (Invoke f args k)
  have "yields host (bind (Invoke f args k) g) r \<longleftrightarrow>
      (\<exists>r1. yields host (body host f args) r1 \<and> yields host (bind (k r1) g) r)"
    by (simp add: yields_Invoke)
  also have "\<dots> \<longleftrightarrow> (\<exists>r1. yields host (body host f args) r1 \<and>
      ((\<exists>e. yields host (k r1) (Inl e) \<and> r = Inl e) \<or>
       (\<exists>v. yields host (k r1) (Inr v) \<and> yields host (g v) r)))"
    using Invoke.IH by (simp add: rangeI)
  also have "\<dots> \<longleftrightarrow> (\<exists>e. yields host (Invoke f args k) (Inl e) \<and> r = Inl e) \<or>
     (\<exists>v. yields host (Invoke f args k) (Inr v) \<and> yields host (g v) r)"
    unfolding yields_Invoke by blast
  finally show ?case .
qed

lemma bind_call [simp]: "bind (call f args k) K = call f args (\<lambda>v. bind (k v) K)"
  by (auto simp: call_def fun_eq_iff split: sum.splits)

lemma bind_Ret_right [simp]: "bind c Ret = c"
  by (induction c) (simp_all add: fun_eq_iff)

lemma bind_assoc: "bind (bind c g) K = bind c (\<lambda>v. bind (g v) K)"
  by (induction c) (simp_all add: fun_eq_iff)

lemma yields_call_bind:
  "yields host (call f args K) r \<longleftrightarrow> yields host (bind (body host f args) K) r"
  unfolding yields_call yields_bind ..

section \<open>Calls of the closures of the numerals\<close>

text \<open>
  One rule per closure: what a call of it, followed by \<open>K\<close>, amounts to. The recursive
  closure of \<open>numeral\<close> is unfolded one step at a time, by induction on the number.
\<close>

lemma call_numeral: "yields host (call numeral' [n] K) r \<longleftrightarrow> yields host (K (numeral_1 n)) r"
  by (simp add: yields_call_bind)

lemma call_numeral_1:
  "yields host (call (numeral_1 n) [f] K) r \<longleftrightarrow> yields host (K (numeral_2 n f)) r"
  by (simp add: yields_call_bind)

lemma numeral_2_zero: "body host (numeral_2 (IntV 0) f) [z] = Ret z"
  by simp

lemma numeral_2_unfold:
  "n \<noteq> 0 \<Longrightarrow> body host (numeral_2 (IntV n) f) [z] =
     call numeral' [IntV (n - 1)] (\<lambda>a. call a [f] (\<lambda>b. call b [z] (\<lambda>r. call f [r] Ret)))"
  by simp

lemma call_numeral_2:
  "yields host (call (numeral_2 (IntV (int n)) f) [z] K) r \<longleftrightarrow>
   yields host (bind (applyNTimes n f z) K) r"
proof (induction n arbitrary: K r)
  case 0
  have "yields host (call (numeral_2 (IntV 0) f) [z] K) r \<longleftrightarrow> yields host (bind (Ret z) K) r"
    by (simp only: yields_call_bind [of _ "numeral_2 (IntV 0) f"] numeral_2_zero)
  then show ?case by simp
next
  case (Suc n)
  have ne: "int (Suc n) \<noteq> 0" and pred: "int (Suc n) - 1 = int n" by simp_all
  have "yields host (call (numeral_2 (IntV (int (Suc n))) f) [z] K) r \<longleftrightarrow>
    yields host (bind (call numeral' [IntV (int n)]
       (\<lambda>a. call a [f] (\<lambda>b. call b [z] (\<lambda>r. call f [r] Ret)))) K) r"
    by (simp only: yields_call_bind [of _ "numeral_2 (IntV (int (Suc n))) f"]
        numeral_2_unfold [OF ne] pred)
  also have "\<dots> \<longleftrightarrow> yields host (call (numeral_2 (IntV (int n)) f) [z] (\<lambda>r. call f [r] K)) r"
    by (simp only: bind_call call_numeral call_numeral_1 bind.simps)
  also have "\<dots> \<longleftrightarrow> yields host (bind (applyNTimes n f z) (\<lambda>r. call f [r] K)) r"
    by (rule Suc.IH)
  also have "\<dots> \<longleftrightarrow> yields host (bind (applyNTimes (Suc n) f z) K) r"
    by (simp only: applyNTimes.simps bind_assoc bind_call bind.simps)
  finally show ?case .
qed

lemma call_INC: "yields host (call INC [IntV k] K) r \<longleftrightarrow> yields host (K (IntV (k + 1))) r"
  by (simp add: yields_call_bind)

lemma call_natify:
  "yields host (call natify [c] K) r \<longleftrightarrow> yields host (call c [INC] (\<lambda>g. call g [IntV 0] K)) r"
  by (simp add: yields_call_bind [of _ natify])

lemma call_SUCC: "yields host (call SUCC [n] K) r \<longleftrightarrow> yields host (K (SUCC_1 n)) r"
  by (simp add: yields_call_bind)

lemma call_SUCC_1: "yields host (call (SUCC_1 n) [f] K) r \<longleftrightarrow> yields host (K (SUCC_2 n f)) r"
  by (simp add: yields_call_bind)

lemma call_SUCC_2:
  "yields host (call (SUCC_2 n f) [z] K) r \<longleftrightarrow>
   yields host (call n [f] (\<lambda>g. call g [z] (\<lambda>r. call f [r] K))) r"
  by (simp add: yields_call_bind [of _ "SUCC_2 n f"])

lemma call_SUM: "yields host (call SUM' [n] K) r \<longleftrightarrow> yields host (K (SUM_1 n)) r"
  by (simp add: yields_call_bind)

lemma call_SUM_1: "yields host (call (SUM_1 n) [m] K) r \<longleftrightarrow> yields host (K (SUM_2 n m)) r"
  by (simp add: yields_call_bind)

lemma call_compose:
  "yields host (call compose [f, g] K) r \<longleftrightarrow> yields host (K (compose_1 f g)) r"
  by (simp add: yields_call_bind)

lemma call_compose_1:
  "yields host (call (compose_1 f g) [x] K) r \<longleftrightarrow> yields host (call g [x] (\<lambda>y. call f [y] K)) r"
  by (simp add: yields_call_bind [of _ "compose_1 f g"])

lemma call_SUM_2:
  "yields host (call (SUM_2 n m) [f] K) r \<longleftrightarrow>
   yields host (call n [f] (\<lambda>nf. call m [f] (\<lambda>mf. call compose [nf, mf] K))) r"
  by (simp add: yields_call_bind [of _ "SUM_2 n m"])

lemma call_MULT: "yields host (call MULT [n] K) r \<longleftrightarrow> yields host (K (MULT_1 n)) r"
  by (simp add: yields_call_bind)

lemma call_MULT_1:
  "yields host (call (MULT_1 n) [m] K) r \<longleftrightarrow> yields host (call compose [n, m] K) r"
  by (simp add: yields_call_bind [of _ "MULT_1 n"])

lemmas call_rules = call_numeral call_numeral_1 call_numeral_2 call_natify call_SUCC call_SUCC_1
  call_SUCC_2 call_SUM call_SUM_1 call_SUM_2 call_compose call_compose_1 call_MULT call_MULT_1
  call_INC

lemma applyNTimes_INC:
  "yields host (bind (applyNTimes n INC (IntV k)) K) r \<longleftrightarrow> yields host (K (IntV (k + int n))) r"
proof (induction n arbitrary: K r)
  case 0
  show ?case by simp
next
  case (Suc n)
  have "yields host (bind (applyNTimes (Suc n) INC (IntV k)) K) r \<longleftrightarrow>
      yields host (bind (applyNTimes n INC (IntV k)) (\<lambda>v. call INC [v] K)) r"
    by (simp only: applyNTimes.simps bind_assoc bind_call bind.simps)
  also have "\<dots> \<longleftrightarrow> yields host (call INC [IntV (k + int n)] K) r"
    by (rule Suc.IH)
  also have "\<dots> \<longleftrightarrow> yields host (K (IntV (k + int (Suc n)))) r"
    by (simp add: call_INC ac_simps)
  finally show ?case .
qed

lemma applyNTimes_INC_Ret:
  "yields host (applyNTimes n INC (IntV k)) r \<longleftrightarrow> r = Inr (IntV (k + int n))"
  using applyNTimes_INC [of host n k Ret r] by simp

lemma applyNTimes_numeral_INC:
  "yields host (bind (applyNTimes n (numeral_2 (IntV (int m)) INC) (IntV k)) K) r \<longleftrightarrow>
   yields host (K (IntV (k + int n * int m))) r"
proof (induction n arbitrary: K r)
  case 0
  show ?case by simp
next
  case (Suc n)
  have "yields host (bind (applyNTimes (Suc n) (numeral_2 (IntV (int m)) INC) (IntV k)) K) r \<longleftrightarrow>
      yields host (bind (applyNTimes n (numeral_2 (IntV (int m)) INC) (IntV k))
        (\<lambda>v. call (numeral_2 (IntV (int m)) INC) [v] K)) r"
    by (simp only: applyNTimes.simps bind_assoc bind_call bind.simps)
  also have "\<dots> \<longleftrightarrow>
      yields host (call (numeral_2 (IntV (int m)) INC) [IntV (k + int n * int m)] K) r"
    by (rule Suc.IH)
  also have "\<dots> \<longleftrightarrow> yields host (K (IntV (k + int (Suc n) * int m))) r"
    by (simp add: call_numeral_2 applyNTimes_INC algebra_simps)
  finally show ?case .
qed

lemma applyNTimes_numeral_INC_Ret:
  "yields host (applyNTimes n (numeral_2 (IntV (int m)) INC) (IntV k)) r \<longleftrightarrow>
   r = Inr (IntV (k + int n * int m))"
  using applyNTimes_numeral_INC [of host n m k Ret r] by simp

lemma module_bindings:
  "run host 1 (call numeral' [IntV 4] Ret) = Some (Inr FOUR, [numeral'])"
  "run host 1 (call numeral' [IntV 8] Ret) = Some (Inr EIGHT, [numeral'])"
  "run host 1 (call Y_h [Y_h] Ret) = Some (Inr Y, [Y_h])"
  by (simp_all add: FOUR_def EIGHT_def Y_def)

section \<open>The numerals\<close>

text \<open>
  Claim C3. Decoding inverts encoding: for every non-negative host integer \<open>n\<close>,
  \<open>natify(numeral(n))\<close> returns \<open>n\<close>; \<open>numeral(n)(f)(z)\<close> behaves as \<open>f\<close> applied to \<open>z\<close> exactly
  \<open>n\<close> times, for every value \<open>f\<close> and seed \<open>z\<close>; and \<open>numeral(0)(f)(z)\<close> returns \<open>z\<close> for any \<open>f\<close>.
\<close>

theorem natify_numeral_inverse:
  "yields host (call numeral' [IntV (int n)] (\<lambda>c. call natify [c] Ret)) (Inr (IntV (int n))) \<and>
   behaves_as host
     (call numeral' [IntV (int n)] (\<lambda>c. call c [f] (\<lambda>d. call d [z] Ret)))
     (applyNTimes n f z) \<and>
   yields host (call numeral' [IntV 0] (\<lambda>c. call c [f] (\<lambda>d. call d [z] Ret))) (Inr z)"
proof -
  have a: "yields host (call numeral' [IntV (int n)] (\<lambda>c. call natify [c] Ret))
      (Inr (IntV (int n)))"
    by (simp add: call_rules applyNTimes_INC_Ret)
  have b: "behaves_as host
     (call numeral' [IntV (int n)] (\<lambda>c. call c [f] (\<lambda>d. call d [z] Ret)))
     (applyNTimes n f z)"
    by (simp add: behaves_as_def call_rules)
  have c: "yields host (call numeral' [IntV 0] (\<lambda>c. call c [f] (\<lambda>d. call d [z] Ret))) (Inr z)"
    using call_numeral_2 [of host 0 f z Ret "Inr z"] by (simp add: call_numeral call_numeral_1)
  from a b c show ?thesis by blast
qed

text \<open>
  Claim C4. \<open>natify\<close> is a homomorphism from Church arithmetic to host arithmetic: for all
  non-negative integers \<open>n\<close> and \<open>m\<close>, \<open>natify(SUCC(numeral(n)))\<close> returns \<open>n + 1\<close>,
  \<open>natify(SUM(numeral(n))(numeral(m)))\<close> returns \<open>n + m\<close> and
  \<open>natify(MULT(numeral(n))(numeral(m)))\<close> returns \<open>n * m\<close>.
\<close>

theorem natify_homomorphism:
  "yields host (call numeral' [IntV (int n)] (\<lambda>a. call SUCC [a] (\<lambda>s. call natify [s] Ret)))
     (Inr (IntV (int n + 1))) \<and>
   yields host (call numeral' [IntV (int n)] (\<lambda>a. call SUM' [a] (\<lambda>g.
      call numeral' [IntV (int m)] (\<lambda>b. call g [b] (\<lambda>s. call natify [s] Ret)))))
     (Inr (IntV (int n + int m))) \<and>
   yields host (call numeral' [IntV (int n)] (\<lambda>a. call MULT [a] (\<lambda>g.
      call numeral' [IntV (int m)] (\<lambda>b. call g [b] (\<lambda>p. call natify [p] Ret)))))
     (Inr (IntV (int n * int m)))"
  by (simp add: call_rules applyNTimes_INC applyNTimes_INC_Ret applyNTimes_numeral_INC_Ret)

text \<open>
  Claim C5. The numerals built by hand with \<open>compose\<close> and the ones built by \<open>numeral(n)\<close>
  coincide under the decoder: \<open>natify\<close> returns 1, 2, 3 for \<open>ONE\<close>, \<open>TWO\<close>, \<open>THREE\<close> and 4, 8
  for \<open>FOUR\<close>, \<open>EIGHT\<close>, the values of \<open>numeral(4)\<close> and \<open>numeral(8)\<close>; and it returns the
  same 1, 2, 3 for \<open>numeral(1)\<close>, \<open>numeral(2)\<close>, \<open>numeral(3)\<close>.
\<close>

theorem natify_literals:
  "yields host (call natify [ONE] Ret) (Inr (IntV 1)) \<and>
   yields host (call natify [TWO] Ret) (Inr (IntV 2)) \<and>
   yields host (call natify [THREE] Ret) (Inr (IntV 3)) \<and>
   yields host (call natify [FOUR] Ret) (Inr (IntV 4)) \<and>
   yields host (call natify [EIGHT] Ret) (Inr (IntV 8)) \<and>
   yields host (call numeral' [IntV 1] (\<lambda>c. call natify [c] Ret)) (Inr (IntV 1)) \<and>
   yields host (call numeral' [IntV 2] (\<lambda>c. call natify [c] Ret)) (Inr (IntV 2)) \<and>
   yields host (call numeral' [IntV 3] (\<lambda>c. call natify [c] Ret)) (Inr (IntV 3))"
  by (simp add: yields_call FOUR_def EIGHT_def)

section \<open>Pairs and lists\<close>

text \<open>
  Claim C6. The projections give back the components of a pair as they were stored: for
  all values \<open>a\<close> and \<open>b\<close>, \<open>LEFT(PAIR(a)(b))\<close> returns \<open>a\<close> and \<open>RIGHT(PAIR(a)(b))\<close> returns \<open>b\<close>.
\<close>

theorem PAIR_projections:
  "yields host (call PAIR [a] (\<lambda>p. call p [b] (\<lambda>q. call LEFT [q] Ret))) (Inr a) \<and>
   yields host (call PAIR [a] (\<lambda>p. call p [b] (\<lambda>q. call RIGHT [q] Ret))) (Inr b)"
  by (simp add: yields_call)

text \<open>
  Claim C7. List case analysis: \<open>NILP(NIL)\<close> returns \<open>TRUE\<close> and, applied to two thunks,
  behaves as the first; for all values \<open>h\<close> and \<open>t\<close>, \<open>NILP(CONS(h)(t))\<close> returns \<open>FALSE\<close> and,
  applied to two thunks, behaves as the second; \<open>HEAD(CONS(h)(t))\<close> returns \<open>h\<close> and
  \<open>TAIL(CONS(h)(t))\<close> returns \<open>t\<close>.
\<close>

theorem list_case_analysis:
  "yields host (call NILP [NIL] Ret) (Inr TRUE) \<and>
   yields host (call CONS [h] (\<lambda>c. call c [t] (\<lambda>l. call NILP [l] Ret))) (Inr FALSE) \<and>
   yields host (call CONS [h] (\<lambda>c. call c [t] (\<lambda>l. call HEAD [l] Ret))) (Inr h) \<and>
   yields host (call CONS [h] (\<lambda>c. call c [t] (\<lambda>l. call TAIL [l] Ret))) (Inr t) \<and>
   behaves_as host
     (call NILP [NIL] (\<lambda>b. call b [tt] (\<lambda>g. call g [ft] Ret)))
     (call tt [] Ret) \<and>
   behaves_as host
     (call CONS [h] (\<lambda>c. call c [t] (\<lambda>l. call NILP [l]
        (\<lambda>b. call b [tt] (\<lambda>g. call g [ft] Ret)))))
     (call ft [] Ret)"
  by (simp add: yields_call behaves_as_def)

text \<open>
  Claim C10. \<open>CONS\<close> and the list observers are parametric in the stored components: for
  arbitrary values \<open>h\<close> and \<open>t\<close> (integers, strings, callables of any behaviour, not only
  encoded lists), \<open>CONS(h)(t)\<close> returns the closure holding them, the observers return
  \<open>FALSE\<close>, \<open>h\<close> and \<open>t\<close>, and the values called on the way are the closures of \<open>CONS\<close> and
  of the observer only: \<open>h\<close> and \<open>t\<close> are passed along and never called.
\<close>

theorem CONS_parametric:
  "(trace host (call CONS [h] (\<lambda>c. call c [t] Ret)) r cs \<longleftrightarrow>
     r = Inr (CONS_2 h t) \<and> cs = [CONS, CONS_1 h]) \<and>
   (trace host (call CONS [h] (\<lambda>c. call c [t] (\<lambda>l. call NILP [l] Ret))) r cs \<longleftrightarrow>
     r = Inr FALSE \<and>
     cs = [CONS, CONS_1 h, NILP, CONS_2 h t, CONS_3 h t NILP_onnil, NILP_onlist,
           NILP_onlist_1 h]) \<and>
   (trace host (call CONS [h] (\<lambda>c. call c [t] (\<lambda>l. call HEAD [l] Ret))) r cs \<longleftrightarrow>
     r = Inr h \<and>
     cs = [CONS, CONS_1 h, HEAD, CONS_2 h t, CONS_3 h t VOID, HEAD_onlist, HEAD_onlist_1 h]) \<and>
   (trace host (call CONS [h] (\<lambda>c. call c [t] (\<lambda>l. call TAIL [l] Ret))) r cs \<longleftrightarrow>
     r = Inr t \<and>
     cs = [CONS, CONS_1 h, TAIL, CONS_2 h t, CONS_3 h t VOID, TAIL_onlist, TAIL_onlist_1 h])"
  by (auto simp add: trace_call trace_call_Ret)

text \<open>
  The placeholder that raises, \<open>_VOID\<close>, is not the one \<open>HEAD\<close> and \<open>TAIL\<close> pass: it raises its
  exception when called with one argument, and \<open>TypeError\<close>, like \<open>VOID\<close>, when called with
  none, which is how \<open>NIL\<close> calls its handler.
\<close>

lemma VOID_raising_faults:
  "yields host (call VOID_raising [x] Ret) r \<longleftrightarrow> r = Inl (Exception ''Cannot invoke VOID!'')"
  "yields host (call VOID_raising [] Ret) r \<longleftrightarrow> r = Inl TypeError"
  by (simp_all add: yields_call)

text \<open>
  Claim C2, as the specification states it: \<open>HEAD(NIL)\<close> raises the designated misuse
  fault, the exception \<open>Cannot invoke VOID!\<close>. It does not: the handler \<open>HEAD\<close> passes for the
  empty case is \<open>VOID = ID\<close>, \<open>NIL\<close> calls it with no argument, and the call raises
  \<open>TypeError\<close>.
\<close>

theorem HEAD_NIL_counterexample:
  "run client_host 4 (call HEAD [NIL] Ret) =
     Some (Inl TypeError, [HEAD, NIL, NIL_1 VOID, VOID]) \<and>
   \<not> yields client_host (call HEAD [NIL] Ret) (Inl (Exception ''Cannot invoke VOID!''))"
  by (simp add: yields_call numeral_eq_Suc)

text \<open>
  Claim C2, amended. Applying \<open>HEAD\<close> or \<open>TAIL\<close> to \<open>NIL\<close> does not return a value: the only
  outcome is the host's \<open>TypeError\<close>, raised when \<open>NIL\<close> calls the one-parameter \<open>VOID\<close> with
  no argument.
\<close>

theorem HEAD_TAIL_NIL_raise_TypeError:
  "(yields host (call HEAD [NIL] Ret) r \<longleftrightarrow> r = Inl TypeError) \<and>
   (yields host (call TAIL [NIL] Ret) r \<longleftrightarrow> r = Inl TypeError)"
  by (simp add: yields_call)

section \<open>Booleans\<close>

text \<open>
  Claim C8. \<open>IF\<close> selects lazily: \<open>IF(TRUE)(trueThunk)(falseThunk)\<close> behaves as
  \<open>trueThunk()\<close> and \<open>IF(FALSE)(trueThunk)(falseThunk)\<close> as \<open>falseThunk()\<close>, whatever the other
  thunk is; the values called are the closures of \<open>IF\<close> and of the boolean, then the selected
  thunk and what that thunk itself calls, so the unselected thunk is not invoked. With the
  thunks of the specification's test: the result is \<open>"a"\<close>, and \<open>"b"\<close>, when the unselected
  thunk is one that raises if called.
\<close>

theorem IF_lazy:
  "(trace host (call IF [TRUE] (\<lambda>a. call a [tt] (\<lambda>b. call b [ft] Ret))) r cs \<longleftrightarrow>
     (\<exists>cs'. trace host (call tt [] Ret) r cs' \<and>
        cs = [IF, IF_1 TRUE, IF_2 TRUE tt, TRUE, TRUE_1 tt] @ cs')) \<and>
   (trace host (call IF [FALSE] (\<lambda>a. call a [tt] (\<lambda>b. call b [ft] Ret))) r cs \<longleftrightarrow>
     (\<exists>cs'. trace host (call ft [] Ret) r cs' \<and>
        cs = [IF, IF_1 FALSE, IF_2 FALSE tt, FALSE, FALSE_1 tt] @ cs')) \<and>
   behaves_as host (call IF [TRUE] (\<lambda>a. call a [tt] (\<lambda>b. call b [ft] Ret))) (call tt [] Ret) \<and>
   behaves_as host (call IF [FALSE] (\<lambda>a. call a [tt] (\<lambda>b. call b [ft] Ret))) (call ft [] Ret) \<and>
   run client_host 6
     (call IF [TRUE] (\<lambda>a. call a [Host Const_a] (\<lambda>b. call b [Host Boom] Ret))) =
     Some (Inr (StrV ''a''),
       [IF, IF_1 TRUE, IF_2 TRUE (Host Const_a), TRUE, TRUE_1 (Host Const_a), Host Const_a]) \<and>
   run client_host 6
     (call IF [FALSE] (\<lambda>a. call a [Host Boom] (\<lambda>b. call b [Host Const_b] Ret))) =
     Some (Inr (StrV ''b''),
       [IF, IF_1 FALSE, IF_2 FALSE (Host Boom), FALSE, FALSE_1 (Host Boom), Host Const_b])"
proof -
  have t: "trace host (call IF [TRUE] (\<lambda>a. call a [tt] (\<lambda>b. call b [ft] Ret))) r cs \<longleftrightarrow>
     (\<exists>cs'. trace host (call tt [] Ret) r cs' \<and>
        cs = [IF, IF_1 TRUE, IF_2 TRUE tt, TRUE, TRUE_1 tt] @ cs')"
    by (cases r) (auto simp: trace_call trace_call_Ret)
  have f: "trace host (call IF [FALSE] (\<lambda>a. call a [tt] (\<lambda>b. call b [ft] Ret))) r cs \<longleftrightarrow>
     (\<exists>cs'. trace host (call ft [] Ret) r cs' \<and>
        cs = [IF, IF_1 FALSE, IF_2 FALSE tt, FALSE, FALSE_1 tt] @ cs')"
    by (cases r) (auto simp: trace_call trace_call_Ret)
  have bt: "behaves_as host (call IF [TRUE] (\<lambda>a. call a [tt] (\<lambda>b. call b [ft] Ret)))
      (call tt [] Ret)"
    by (simp add: behaves_as_def yields_call)
  have bf: "behaves_as host (call IF [FALSE] (\<lambda>a. call a [tt] (\<lambda>b. call b [ft] Ret)))
      (call ft [] Ret)"
    by (simp add: behaves_as_def yields_call)
  have ca: "run client_host 6
     (call IF [TRUE] (\<lambda>a. call a [Host Const_a] (\<lambda>b. call b [Host Boom] Ret))) =
     Some (Inr (StrV ''a''),
       [IF, IF_1 TRUE, IF_2 TRUE (Host Const_a), TRUE, TRUE_1 (Host Const_a), Host Const_a])"
    by (simp add: numeral_eq_Suc)
  have cb: "run client_host 6
     (call IF [FALSE] (\<lambda>a. call a [Host Boom] (\<lambda>b. call b [Host Const_b] Ret))) =
     Some (Inr (StrV ''b''),
       [IF, IF_1 FALSE, IF_2 FALSE (Host Boom), FALSE, FALSE_1 (Host Boom), Host Const_b])"
    by (simp add: numeral_eq_Suc)
  from t f bt bf ca cb show ?thesis by blast
qed

section \<open>Constructing a numeral\<close>

lemma negative_numeral_no_result:
  "n < 0 \<Longrightarrow> run host k (call (numeral_2 (IntV n) f) [z] K) = None"
proof (induction k arbitrary: n K rule: less_induct)
  case (less k)
  from less.prems have ne: "n \<noteq> 0" and neg: "n - 1 < 0" by simp_all
  show ?case
  proof (cases k)
    case 0
    then show ?thesis by simp
  next
    case k1: (Suc k1)
    show ?thesis
    proof (cases k1)
      case 0
      with k1 ne show ?thesis by simp
    next
      case k2: (Suc k2)
      show ?thesis
      proof (cases k2)
        case 0
        with k1 k2 ne show ?thesis by simp
      next
        case k3: (Suc k3)
        have "k3 < k" using k1 k2 k3 by simp
        from less.IH [OF this neg]
        have "run host k3 (call (numeral_2 (IntV (n - 1)) f) [z] (\<lambda>r. call f [r] Ret)) = None" .
        with k1 k2 k3 ne show ?thesis by simp
      qed
    qed
  qed
qed

text \<open>
  Claim C9. Constructing a numeral never diverges: for every host integer \<open>n\<close>, negative
  ones included, \<open>numeral(n)\<close> returns a closure after one call and \<open>numeral(n)(f)\<close>, for any
  \<open>f\<close>, after two, neither of them recursive; the recursion over \<open>n\<close> starts when the result is
  applied to a seed \<open>z\<close>, and for a negative \<open>n\<close> that application has no outcome, whatever \<open>f\<close>
  and \<open>z\<close> are.
\<close>

theorem numeral_construction_returns:
  "run host 1 (call numeral' [IntV n] Ret) = Some (Inr (numeral_1 (IntV n)), [numeral']) \<and>
   run host 2 (call numeral' [IntV n] (\<lambda>c. call c [f] Ret)) =
     Some (Inr (numeral_2 (IntV n) f), [numeral', numeral_1 (IntV n)]) \<and>
   (n < 0 \<longrightarrow>
     diverges host (call numeral' [IntV n] (\<lambda>c. call c [f] (\<lambda>d. call d [z] Ret))))"
proof -
  have a: "run host 1 (call numeral' [IntV n] Ret) = Some (Inr (numeral_1 (IntV n)), [numeral'])"
    by simp
  have b: "run host 2 (call numeral' [IntV n] (\<lambda>c. call c [f] Ret)) =
     Some (Inr (numeral_2 (IntV n) f), [numeral', numeral_1 (IntV n)])"
    by (simp add: numeral_eq_Suc)
  have c: "diverges host (call numeral' [IntV n] (\<lambda>c. call c [f] (\<lambda>d. call d [z] Ret)))"
    if neg: "n < 0"
    unfolding diverges_def
  proof
    fix k
    show "run host k (call numeral' [IntV n] (\<lambda>c. call c [f] (\<lambda>d. call d [z] Ret))) = None"
    proof (cases k)
      case 0
      then show ?thesis by simp
    next
      case k1: (Suc k1)
      show ?thesis
      proof (cases k1)
        case 0
        with k1 show ?thesis by simp
      next
        case (Suc k2)
        with k1 negative_numeral_no_result [OF neg, of host k2 f z Ret] show ?thesis by simp
      qed
    qed
  qed
  from a b c show ?thesis by blast
qed

theorem numeral_construction_returns_witness:
  "(-1::int) < 0 \<and>
   run client_host 1 (call numeral' [IntV (-1)] Ret) =
     Some (Inr (numeral_1 (IntV (-1))), [numeral']) \<and>
   diverges client_host
     (call numeral' [IntV (-1)] (\<lambda>c. call c [INC] (\<lambda>d. call d [IntV 0] Ret)))"
  using numeral_construction_returns [of client_host "-1" INC "IntV 0"] by simp

section \<open>The fixed-point combinator\<close>

lemma rres_simps [simp]:
  "rres F f (Inl e) r' \<longleftrightarrow> r' = Inl e"
  "rres F f (Inr v) (Inr v') \<longleftrightarrow> rel F f v v'"
  "rres F f (Inr v) (Inl e') \<longleftrightarrow> False"
  "rres F f r (Inl e) \<longleftrightarrow> r = Inl e"
  by (auto simp: rres_def split: sum.splits)

lemma rel_refl: "rel F f v v"
  by (induction v) (auto intro: rel.intros)

lemma rel_sym: "rel F f v v' \<Longrightarrow> rel F f v' v"
  by (induction rule: rel.induct) (auto intro: rel.intros)

lemma rel_view: "rel F f v v' \<Longrightarrow> view f = PFun \<Longrightarrow> view v = view v'"
  by (induction rule: rel.induct) simp_all



lemma py_eq_int_view: "view v = view v' \<Longrightarrow> py_eq_int v k = py_eq_int v' k"
  by (cases v; cases v'; simp)

lemma py_le_int_view: "view v = view v' \<Longrightarrow> py_le_int v k = py_le_int v' k"
  by (cases v; cases v'; simp)

lemma py_sub_int_view: "view v = view v' \<Longrightarrow> py_sub_int v k = py_sub_int v' k"
  by (cases v; cases v'; simp)

lemma py_add_int_view: "view v = view v' \<Longrightarrow> py_add_int v k = py_add_int v' k"
  by (cases v; cases v'; simp)

lemma py_mul_view_l: "view a = view a' \<Longrightarrow> py_mul a b = py_mul a' b"
  by (cases a; cases a'; cases b; simp)

lemma py_mul_view_r: "view b = view b' \<Longrightarrow> py_mul a b = py_mul a b'"
  by (cases a; cases b; cases b'; simp)

lemma crel_lift: "crel F f (lift r) (lift r)"
  by (cases r) (auto intro: crel.intros rel_refl)

lemma crel_call:
  assumes "rel F f g g'" and "list_all2 (rel F f) args args'"
    and "\<And>v v'. rel F f v v' \<Longrightarrow> crel F f (k v) (k' v')"
  shows "crel F f (call g args k) (call g' args' k')"
  unfolding call_def
proof (rule crel_Invoke [OF assms(1,2)])
  fix r r' :: "'a res"
  assume "rres F f r r'"
  then show "crel F f (case r of Inl e \<Rightarrow> Raise e | Inr v \<Rightarrow> k v)
      (case r' of Inl e \<Rightarrow> Raise e | Inr v \<Rightarrow> k' v)"
    by (cases r; cases r') (auto intro: crel.intros assms(3))
qed

lemma crel_arg0:
  "list_all2 (rel F f) args args' \<Longrightarrow> crel F f k k' \<Longrightarrow> crel F f (arg0 args k) (arg0 args' k')"
  by (cases args; cases args') (auto intro: crel.intros)

lemma crel_arg1:
  assumes "list_all2 (rel F f) args args'"
    and "\<And>x x'. rel F f x x' \<Longrightarrow> crel F f (k x) (k' x')"
  shows "crel F f (arg1 args k) (arg1 args' k')"
proof (cases args)
  case Nil
  with assms(1) show ?thesis by (auto intro: crel.intros)
next
  case (Cons x xs)
  with assms(1) obtain x' xs' where args': "args' = x' # xs'" and x: "rel F f x x'"
    and xs: "list_all2 (rel F f) xs xs'"
    by (auto simp: list_all2_Cons1)
  show ?thesis
  proof (cases xs)
    case Nil
    with xs have "xs' = []" by simp
    with Cons Nil args' x show ?thesis by (simp add: assms(2))
  next
    case (Cons y ys)
    with xs obtain y' ys' where "xs' = y' # ys'" by (auto simp: list_all2_Cons1)
    with \<open>args = x # xs\<close> Cons args' show ?thesis by (auto intro: crel.intros)
  qed
qed

lemma crel_arg2:
  assumes "list_all2 (rel F f) args args'"
    and "\<And>x x' y y'. rel F f x x' \<Longrightarrow> rel F f y y' \<Longrightarrow> crel F f (k x y) (k' x' y')"
  shows "crel F f (arg2 args k) (arg2 args' k')"
proof -
  from assms(1) have len: "length args = length args'" by (rule list_all2_lengthD)
  consider "args = []" | x where "args = [x]" | x y where "args = [x, y]"
    | x y z zs where "args = x # y # z # zs"
    by (metis list.exhaust)
  then show ?thesis
  proof cases
    case 1
    with assms(1) show ?thesis by (auto intro: crel.intros)
  next
    case 2
    with assms(1) show ?thesis by (auto simp: list_all2_Cons1 intro: crel.intros)
  next
    case 3
    with assms(1) show ?thesis by (auto simp: list_all2_Cons1 intro: assms(2))
  next
    case 4
    with assms(1) show ?thesis by (auto simp: list_all2_Cons1 intro: crel.intros)
  qed
qed

lemmas crel_intros = crel_arg0 crel_arg1 crel_arg2 crel_call crel_Ret crel_Raise
  rel_IntV rel_StrV rel_Fn0 rel_Fn1 rel_Fn2 rel_Fn3 rel_Host

lemma crel_body0:
  "list_all2 (rel F f) args args' \<Longrightarrow> view f = PFun \<Longrightarrow>
   crel F f (body0 l args) (body0 l args')"
  by (cases l)
    (auto intro!: crel_intros crel_lift simp: py_add_int_view [OF rel_view])

lemma crel_fact_body:
  assumes a: "rel F f a a'" and x: "rel F f x x'" and fn: "view f = PFun"
  shows "crel F f (body1 L_fact_body a [x]) (body1 L_fact_body a' [x'])"
proof -
  have vx: "view x = view x'" by (rule rel_view [OF x fn])
  have le: "py_le_int x 0 = py_le_int x' 0" by (rule py_le_int_view [OF vx])
  have sub: "py_sub_int x 1 = py_sub_int x' 1" by (rule py_sub_int_view [OF vx])
  have mul: "lift (py_mul x r) = lift (py_mul x' r')" if "rel F f r r'" for r r'
    using py_mul_view_l [OF vx, of r] py_mul_view_r [OF rel_view [OF that fn], of x'] by simp
  have k: "crel F f (call a [n1] (\<lambda>r. lift (py_mul x r))) (call a' [n1] (\<lambda>r. lift (py_mul x' r)))"
    for n1
    by (rule crel_call [OF a]) (auto simp: mul intro: rel_refl crel_lift)
  show ?thesis
    by (cases "py_le_int x' 0"; cases "py_sub_int x' 1")
      (auto simp: le sub intro: crel.intros rel.intros k)
qed

lemma crel_body1:
  "rel F f a a' \<Longrightarrow> list_all2 (rel F f) args args' \<Longrightarrow> view f = PFun \<Longrightarrow>
   crel F f (body1 l a args) (body1 l a' args')"
proof (cases "l = L_fact_body")
  case True
  assume a: "rel F f a a'" and args: "list_all2 (rel F f) args args'" and fn: "view f = PFun"
  have "crel F f (arg1 args (\<lambda>x. body1 L_fact_body a [x])) (arg1 args' (\<lambda>x. body1 L_fact_body a' [x]))"
    by (rule crel_arg1 [OF args]) (rule crel_fact_body [OF a _ fn])
  moreover have "body1 L_fact_body b xs = arg1 xs (\<lambda>x. body1 L_fact_body b [x])"
    for b :: "'a val" and xs
  proof (cases xs)
    case Nil
    then show ?thesis by simp
  next
    case (Cons y ys)
    then show ?thesis by (cases ys) simp_all
  qed
  ultimately show ?thesis using True by simp
next
  case False
  assume "rel F f a a'" "list_all2 (rel F f) args args'" "view f = PFun"
  with False show ?thesis
    by (cases l) (auto intro!: crel_intros)
qed

lemma crel_body2:
  "rel F f a a' \<Longrightarrow> rel F f b b' \<Longrightarrow> list_all2 (rel F f) args args' \<Longrightarrow> view f = PFun \<Longrightarrow>
   crel F f (body2 l a b args) (body2 l a' b' args')"
  by (cases l)
    (auto intro!: crel_intros rel_refl simp: py_eq_int_view [OF rel_view] py_sub_int_view [OF rel_view]
       split: sum.splits)

lemma crel_body3:
  "rel F f a a' \<Longrightarrow> rel F f b b' \<Longrightarrow> rel F f c c' \<Longrightarrow> list_all2 (rel F f) args args' \<Longrightarrow>
   crel F f (body3 l a b c args) (body3 l a' b' c' args')"
  by (cases l) (auto intro!: crel_intros)

lemma crel_body_refl:
  assumes "list_all2 (rel F f) args args'" and "view f = PFun" and "host_uniform host F f"
  shows "crel F f (body host g args) (body host g args')"
proof (cases g)
  case (Host h)
  with assms(1,3) show ?thesis by (simp add: host_uniform_def)
qed (use assms in \<open>auto intro: crel_body0 crel_body1 crel_body2 crel_body3 rel_refl crel.intros\<close>)

lemma run_call_Some:
  assumes "run host n (call g args K) = Some (r, cs)"
  shows "\<exists>m r1 cs1. n = Suc m \<and> run host m (body host g args) = Some (r1, cs1) \<and>
     (case r1 of
        Inl e \<Rightarrow> r = Inl e \<and> cs = g # cs1
      | Inr v \<Rightarrow> (\<exists>cs2. run host m (K v) = Some (r, cs2) \<and> cs = g # cs1 @ cs2))"
proof (cases n)
  case 0
  with assms show ?thesis by simp
next
  case (Suc m)
  with assms show ?thesis
    by (auto split: option.splits sum.splits prod.splits)
qed

lemma run_self_reference:
  assumes run: "run host n (body host (Y_x Y_h F) [x]) = Some (r, cs)"
    and ret: "yields host (body host F [Y_x Y_h F]) (Inr f)"
  shows "\<exists>m cs'. m < n \<and> run host m (body host f [x]) = Some (r, cs')"
proof -
  from run have "run host n (call Y_h [Y_h] (\<lambda>a. call a [F] (\<lambda>b. call b [x] Ret))) = Some (r, cs)"
    by simp
  from run_call_Some [OF this] obtain n1 cs1 where n: "n = Suc n1"
    and 1: "run host n1 (call (Y_F Y_h) [F] (\<lambda>b. call b [x] Ret)) = Some (r, cs1)"
    by auto
  from run_call_Some [OF 1] obtain n2 r2 cs2 where n1: "n1 = Suc n2"
    and 2: "run host n2 (call F [Y_x Y_h F] Ret) = Some (r2, cs2)"
    and 3: "case r2 of Inl e \<Rightarrow> r = Inl e \<and> cs1 = Y_F Y_h # cs2
       | Inr v \<Rightarrow> (\<exists>cs3. run host n2 (call v [x] Ret) = Some (r, cs3) \<and> cs1 = Y_F Y_h # cs2 @ cs3)"
    by auto
  from 2 have "yields host (call F [Y_x Y_h F] Ret) r2"
    unfolding yields_def trace_def by blast
  then have "yields host (body host F [Y_x Y_h F]) r2" by (simp add: yields_call_Ret)
  with ret have r2: "r2 = Inr f" using yields_det by blast
  with 3 obtain cs3 where 4: "run host n2 (call f [x] Ret) = Some (r, cs3)" by auto
  from run_call_Some [OF 4] obtain n3 r3 cs4 where n2: "n2 = Suc n3"
    and 5: "run host n3 (body host f [x]) = Some (r3, cs4)"
    and 6: "case r3 of Inl e \<Rightarrow> r = Inl e \<and> cs3 = f # cs4
       | Inr v \<Rightarrow> (\<exists>cs5. run host n3 (Ret v) = Some (r, cs5) \<and> cs3 = f # cs4 @ cs5)"
    by auto
  from 6 have "r3 = r" by (cases r3) auto
  with 5 have "n3 < n \<and> run host n3 (body host f [x]) = Some (r, cs4)"
    using n n1 n2 by simp
  then show ?thesis by blast
qed

lemma body_self_reference:
  assumes ret: "yields host (body host F [Y_x Y_h F]) (Inr f)"
  shows "yields host (body host (Y_x Y_h F) [x]) r \<longleftrightarrow> yields host (body host f [x]) r"
proof -
  have "yields host (body host (Y_x Y_h F) [x]) r \<longleftrightarrow>
      yields host (call (Y_F Y_h) [F] (\<lambda>b. call b [x] Ret)) r"
    by (simp add: yields_call_bind [of _ Y_h])
  also have "\<dots> \<longleftrightarrow> yields host (call F [Y_x Y_h F] (\<lambda>b. call b [x] Ret)) r"
    by (simp add: yields_call_bind [of _ "Y_F Y_h"])
  also have "\<dots> \<longleftrightarrow> yields host (call f [x] Ret) r"
    using ret unfolding yields_call [of _ F] using yields_det by blast
  finally show ?thesis by (simp add: yields_call_Ret)
qed

lemma body_Y_x_arity: "length args \<noteq> 1 \<Longrightarrow> body host (Y_x a b) args = Raise TypeError"
proof (cases args)
  case Nil
  then show ?thesis by simp
next
  case (Cons y ys)
  assume "length args \<noteq> 1"
  with Cons show ?thesis by (cases ys) simp_all
qed

lemma list_all2_single:
  "list_all2 R args args' \<Longrightarrow> length args = 1 \<Longrightarrow>
   \<exists>x x'. args = [x] \<and> args' = [x'] \<and> R x x'"
  by (cases args; cases args') auto

lemma simulation:
  assumes ret: "yields host (body host F [Y_x Y_h F]) (Inr f)"
    and un: "unary_fn host f" and hu: "host_uniform host F f"
  shows "crel F f c c' \<Longrightarrow> run host n c = Some (r, cs) \<Longrightarrow>
    \<exists>r'. yields host c' r' \<and> rres F f r r'"
proof (induction n arbitrary: c c' r cs)
  case 0
  from "0.prems" show ?case by (cases rule: crel.cases) auto
next
  case (Suc n)
  from un have fn: "view f = PFun"
    and ar: "\<And>args. length args \<noteq> 1 \<Longrightarrow> body host f args = Raise TypeError"
    by (simp_all add: unary_fn_def)
  from Suc.prems(1) show ?case
  proof (cases rule: crel.cases)
    case (crel_Ret v v')
    with Suc.prems(2) show ?thesis by auto
  next
    case (crel_Raise e)
    with Suc.prems(2) show ?thesis by auto
  next
    case (crel_Invoke g g' args args' k k')
    from Suc.prems(2) crel_Invoke(1) obtain r1 cs1 cs2 where
      b: "run host n (body host g args) = Some (r1, cs1)" and
      kk: "run host n (k r1) = Some (r, cs2)"
      by (auto split: option.splits prod.splits)
    have len: "length args = length args'"
      using crel_Invoke(4) by (rule list_all2_lengthD)
    have same: "\<exists>r1'. yields host (body host f args') r1' \<and> rres F f r1 r1'"
      if "run host n (body host f args) = Some (r1, cs0)" for cs0
      using Suc.IH [OF crel_body_refl [OF crel_Invoke(4) fn hu] that] .
    have sub: "\<exists>r1'. yields host (body host g' args') r1' \<and> rres F f r1 r1'"
      using crel_Invoke(3)
    proof (cases rule: rel.cases)
      case rel_sf
      show ?thesis
      proof (cases "length args = 1")
        case True
        from list_all2_single [OF crel_Invoke(4) True] obtain x x' where
          xs: "args = [x]" "args' = [x']" "rel F f x x'" by blast
        from run_self_reference [OF b [unfolded rel_sf xs] ret] obtain m cs' where
          m: "m < n" "run host m (body host f [x]) = Some (r1, cs')" by blast
        from run_mono [OF m(2), of n] m(1) have "run host n (body host f args) = Some (r1, cs')"
          using xs by simp
        from same [OF this] show ?thesis using rel_sf by simp
      next
        case False
        from False have "body host (Y_x Y_h F) args = Raise TypeError"
          by (rule body_Y_x_arity)
        with b rel_sf have "r1 = Inl TypeError" by (simp del: body.simps)
        moreover from False len have "body host f args' = Raise TypeError" by (simp add: ar)
        ultimately show ?thesis using rel_sf by simp
      qed
    next
      case rel_fs
      show ?thesis
      proof (cases "length args = 1")
        case True
        from list_all2_single [OF crel_Invoke(4) True] obtain x x' where
          xs: "args = [x]" "args' = [x']" "rel F f x x'" by blast
        from same [OF b [unfolded rel_fs]] obtain r1' where
          "yields host (body host f args') r1'" "rres F f r1 r1'" by blast
        then have "yields host (body host (Y_x Y_h F) [x']) r1' \<and> rres F f r1 r1'"
          using xs by (simp only: body_self_reference [OF ret])
        then show ?thesis using rel_fs xs by blast
      next
        case False
        with b rel_fs have "r1 = Inl TypeError" by (simp add: ar)
        moreover from False len have "body host (Y_x Y_h F) args' = Raise TypeError"
          by (intro body_Y_x_arity) simp
        ultimately show ?thesis using rel_fs by (simp del: body.simps)
      qed
    next
      case (rel_IntV i)
      with b show ?thesis by auto
    next
      case (rel_StrV t)
      with b show ?thesis by auto
    next
      case (rel_Fn0 l)
      with Suc.IH [OF crel_body0 [OF crel_Invoke(4) fn, of l]] b show ?thesis by simp
    next
      case (rel_Fn1 a a' l)
      with Suc.IH [OF crel_body1 [OF rel_Fn1(3) crel_Invoke(4) fn, of l]] b show ?thesis by simp
    next
      case (rel_Fn2 a a' b1 b1' l)
      with Suc.IH [OF crel_body2 [OF rel_Fn2(3,4) crel_Invoke(4) fn, of l]] b show ?thesis by simp
    next
      case (rel_Fn3 a a' b1 b1' c1 c1' l)
      with Suc.IH [OF crel_body3 [OF rel_Fn3(3,4,5) crel_Invoke(4), of l]] b show ?thesis by simp
    next
      case (rel_Host h)
      from hu crel_Invoke(4) have "crel F f (host h args) (host h args')"
        by (simp add: host_uniform_def)
      from Suc.IH [OF this] b rel_Host show ?thesis by simp
    qed
    then obtain r1' where y1: "yields host (body host g' args') r1'" and rr: "rres F f r1 r1'"
      by blast
    from Suc.IH [OF crel_Invoke(5) [OF rr] kk] obtain r' where
      "yields host (k' r1') r'" "rres F f r r'" by blast
    with y1 crel_Invoke(2) show ?thesis by (auto simp: yields_Invoke)
  qed
qed

lemma rres_sym: "rres F f r r' \<Longrightarrow> rres F f r' r"
  by (cases r; cases r') (auto intro: rel_sym)

lemma crel_alike:
  assumes ret: "yields host (body host F [Y_x Y_h F]) (Inr f)"
    and un: "unary_fn host f" and hu: "host_uniform host F f"
    and cd: "crel F f c d" and dc: "crel F f d c"
  shows "alike host F f c d"
  unfolding alike_def
proof (intro conjI allI impI)
  fix r assume "yields host c r"
  then obtain n cs where "run host n c = Some (r, cs)" by (auto simp: yields_def trace_def)
  from simulation [OF ret un hu cd this] show "\<exists>r'. yields host d r' \<and> rres F f r r'" .
next
  fix r' assume "yields host d r'"
  then obtain n cs where "run host n d = Some (r', cs)" by (auto simp: yields_def trace_def)
  from simulation [OF ret un hu dc this] obtain r where "yields host c r" "rres F f r' r"
    by blast
  then show "\<exists>r. yields host c r \<and> rres F f r r'" by (blast intro: rres_sym)
qed






lemma arg1_arity: "length args \<noteq> 1 \<Longrightarrow> arg1 args k = Raise TypeError"
proof (cases args)
  case Nil
  then show ?thesis by simp
next
  case (Cons y ys)
  assume "length args \<noteq> 1"
  with Cons show ?thesis by (cases ys) simp_all
qed


lemma unary_fn_Fn2: "unary_fn host (Fn2 l a b)"
  unfolding unary_fn_def by (cases l) (simp_all add: arg1_arity)

lemma unary_fn_Fn3: "unary_fn host (Fn3 l a b c)"
  unfolding unary_fn_def by (cases l) (simp_all add: arg1_arity)





text \<open>
  Related values are the same function, up to the self-reference: applied to related
  arguments they behave alike.
\<close>

lemma rel_same_function:
  assumes ret: "yields host (body host F [Y_x Y_h F]) (Inr f)"
    and un: "unary_fn host f" and hu: "host_uniform host F f"
    and vw: "rel F f v w" and xy: "rel F f x y"
  shows "alike host F f (call v [x] Ret) (call w [y] Ret)"
proof (rule crel_alike [OF ret un hu])
  show "crel F f (call v [x] Ret) (call w [y] Ret)"
    by (rule crel_call) (simp_all add: vw xy crel_Ret)
  show "crel F f (call w [y] Ret) (call v [x] Ret)"
    by (rule crel_call) (simp_all add: rel_sym [OF vw] rel_sym [OF xy] crel_Ret)
qed




end
